theory Spec2Isabelle
  imports Main
begin

section \<open>Strings and the regular expressions of \<^verbatim>\<open>src/agent/agent.ts\<close>\<close>

text \<open>
  A JavaScript string is modelled as a \<^typ>\<open>string\<close>: a list of code units, here
  restricted to the range 0..255. In that range the line terminators of the regular
  expression engine are LF and CR, and the characters removed by \<^verbatim>\<open>trim\<close> are
  TAB, LF, VT, FF, CR, SPACE and NBSP.
\<close>

definition isLineTerminator :: "char \<Rightarrow> bool" where
  "isLineTerminator c \<longleftrightarrow> c = CHR 0x0A \<or> c = CHR 0x0D"

definition isWhiteSpace :: "char \<Rightarrow> bool" where
  "isWhiteSpace c \<longleftrightarrow>
     c = CHR 0x09 \<or> c = CHR 0x0A \<or> c = CHR 0x0B \<or> c = CHR 0x0C \<or> c = CHR 0x0D \<or>
     c = CHR 0x20 \<or> c = CHR 0xA0"

definition trimStart :: "string \<Rightarrow> string" where
  "trimStart s = dropWhile isWhiteSpace s"

definition trimEnd :: "string \<Rightarrow> string" where
  "trimEnd s = rev (dropWhile isWhiteSpace (rev s))"

definition trim :: "string \<Rightarrow> string" where
  "trim s = trimEnd (trimStart s)"

text \<open>\<open>dropPrefix p s\<close> is what is left of \<open>s\<close> after the literal \<open>p\<close>, if \<open>s\<close> starts with it.\<close>

fun dropPrefix :: "string \<Rightarrow> string \<Rightarrow> string option" where
  "dropPrefix [] s = Some s"
| "dropPrefix (p # ps) [] = None"
| "dropPrefix (p # ps) (c # cs) = (if p = c then dropPrefix ps cs else None)"

text \<open>\<^verbatim>\<open>String.prototype.includes\<close> and \<^verbatim>\<open>String.prototype.indexOf\<close>.\<close>

fun includes_str :: "string \<Rightarrow> string \<Rightarrow> bool" where
  "includes_str [] sub = (sub = [])"
| "includes_str (c # cs) sub = (dropPrefix sub (c # cs) \<noteq> None \<or> includes_str cs sub)"

fun indexOf :: "string \<Rightarrow> string \<Rightarrow> int" where
  "indexOf [] sub = (if sub = [] then 0 else - 1)"
| "indexOf (c # cs) sub =
     (if dropPrefix sub (c # cs) \<noteq> None then 0
      else (let i = indexOf cs sub in if i = - 1 then - 1 else i + 1))"

text \<open>
  The regular expressions of the file are sequences of three kinds of item: a literal,
  the capturing group \<^verbatim>\<open>(.*)\<close> (every expression has exactly one, group 1) and the
  group \<^verbatim>\<open>(\n|$)\<close>. None of them carries a flag, so \<^verbatim>\<open>.\<close> excludes the line
  terminators and \<^verbatim>\<open>$\<close> is the end of the input.

  \<open>matchHere rx s\<close> matches \<open>rx\<close> at the start of \<open>s\<close> as a backtracking engine does and
  returns the text of group 1: the greedy \<^verbatim>\<open>.*\<close> first takes one more character and
  gives it back only when the rest of the expression fails.
\<close>

datatype atom = Lit string | DotStarGroup | NewlineOrEnd

fun matchHere :: "atom list \<Rightarrow> string \<Rightarrow> string option" where
  "matchHere [] s = Some []"
| "matchHere (Lit l # rx) s =
     (case dropPrefix l s of None \<Rightarrow> None | Some r \<Rightarrow> matchHere rx r)"
| "matchHere (NewlineOrEnd # rx) [] = matchHere rx []"
| "matchHere (NewlineOrEnd # rx) (c # cs) =
     (if c = CHR 0x0A then matchHere rx cs else None)"
| "matchHere (DotStarGroup # rx) [] = matchHere rx []"
| "matchHere (DotStarGroup # rx) (c # cs) =
     (if isLineTerminator c then matchHere rx (c # cs)
      else (case matchHere (DotStarGroup # rx) cs of
              Some g \<Rightarrow> Some (c # g)
            | None \<Rightarrow> matchHere rx (c # cs)))"

text \<open>
  \<^verbatim>\<open>str.match(rx)\<close> without the global flag: the first start position, from the left,
  at which the expression matches; \<open>None\<close> is \<^verbatim>\<open>null\<close>, \<open>Some g\<close> is a match whose
  group 1 is \<open>g\<close>.
\<close>

fun match :: "string \<Rightarrow> atom list \<Rightarrow> string option" where
  "match [] rx = matchHere rx []"
| "match (c # cs) rx =
     (case matchHere rx (c # cs) of Some g \<Rightarrow> Some g | None \<Rightarrow> match cs rx)"

subsection \<open>\<^verbatim>\<open>strip\<close> and \<^verbatim>\<open>stripQuotes\<close>\<close>

definition strip :: "string \<Rightarrow> string \<Rightarrow> string" where
  "strip str c =
     (case match str [Lit c, DotStarGroup, Lit c] of
        Some m1 \<Rightarrow> m1
      | None \<Rightarrow> str)"

definition stripQuotes :: "string \<Rightarrow> string" where
  "stripQuotes str = strip (strip str [CHR 0x22]) [CHR 0x27]"

subsection \<open>\<^verbatim>\<open>parseFloat\<close> and the comparison with 9\<close>

text \<open>
  \<^verbatim>\<open>parseFloat\<close> skips leading white space and reads the longest prefix that is a
  \<^verbatim>\<open>StrDecimalLiteral\<close>: an optional sign, then \<^verbatim>\<open>Infinity\<close> or decimal digits with
  an optional fraction and an optional exponent. \<open>Finite neg m e\<close> stands for the
  mathematical value \<open>m * 10 ^ e\<close> of that prefix, negated when \<open>neg\<close>, before it is
  rounded to a double.
\<close>

datatype number = NaN | Infinity bool | Finite bool int int

definition isDecimalDigit :: "char \<Rightarrow> bool" where
  "isDecimalDigit c \<longleftrightarrow> 48 \<le> (of_char c :: int) \<and> (of_char c :: int) \<le> 57"

definition decimalDigitsValue :: "string \<Rightarrow> int" where
  "decimalDigitsValue ds = foldl (\<lambda>n c. 10 * n + ((of_char c :: int) - 48)) 0 ds"

definition signedInteger :: "string \<Rightarrow> int" where
  "signedInteger s = decimalDigitsValue (takeWhile isDecimalDigit s)"

text \<open>
  The value of the \<^verbatim>\<open>ExponentPart\<close> at the start of \<open>s\<close>. An exponent indicator that
  no digit follows is not part of the literal, which is then read as with exponent 0.
\<close>

definition exponentPart :: "string \<Rightarrow> int" where
  "exponentPart s =
     (case s of
        [] \<Rightarrow> 0
      | c # r \<Rightarrow>
          if c = CHR ''e'' \<or> c = CHR ''E'' then
            (case r of
               [] \<Rightarrow> 0
             | d # r' \<Rightarrow>
                 if d = CHR ''+'' then signedInteger r'
                 else if d = CHR ''-'' then - signedInteger r'
                 else signedInteger r)
          else 0)"

definition strUnsignedDecimalLiteral :: "bool \<Rightarrow> string \<Rightarrow> number" where
  "strUnsignedDecimalLiteral neg u =
     (if dropPrefix ''Infinity'' u \<noteq> None then Infinity neg
      else
        (let ip = takeWhile isDecimalDigit u; r1 = dropWhile isDecimalDigit u
         in if r1 \<noteq> [] \<and> hd r1 = CHR ''.'' then
              (let fp = takeWhile isDecimalDigit (tl r1);
                   r3 = dropWhile isDecimalDigit (tl r1)
               in if ip = [] \<and> fp = [] then NaN
                  else Finite neg (decimalDigitsValue (ip @ fp))
                         (exponentPart r3 - int (length fp)))
            else if ip = [] then NaN
            else Finite neg (decimalDigitsValue ip) (exponentPart r1)))"

definition parseFloat :: "string \<Rightarrow> number" where
  "parseFloat inputString =
     (let trimmedString = trimStart inputString
      in case trimmedString of
           [] \<Rightarrow> NaN
         | c # u \<Rightarrow>
             if c = CHR ''-'' then strUnsignedDecimalLiteral True u
             else if c = CHR ''+'' then strUnsignedDecimalLiteral False u
             else strUnsignedDecimalLiteral False (c # u))"

text \<open>
  \<^verbatim>\<open>x >= 9\<close> on the double that \<open>x\<close> rounds to. The doubles next to 9 are
  \<open>9 - 2^-49\<close> and 9 itself, whose significand is even, so under round-to-nearest,
  ties-to-even, a value rounds to a double that is at least 9 exactly when it is at
  least \<open>9 - 2^-50\<close>. The comparison is written on integers, both sides scaled by
  \<open>2^50\<close> and by the power of ten.
\<close>

fun geNine :: "number \<Rightarrow> bool" where
  "geNine NaN = False"
| "geNine (Infinity neg) = (\<not> neg)"
| "geNine (Finite neg m e) =
     (\<not> neg \<and>
      (if 0 \<le> e then 9 * 2 ^ 50 - 1 \<le> m * 10 ^ nat e * 2 ^ 50
       else (9 * 2 ^ 50 - 1) * 10 ^ nat (- e) \<le> m * 2 ^ 50))"

section \<open>The data model\<close>

text \<open>
  Modelled from the spec: the types \<^verbatim>\<open>Plugin\<close>, \<^verbatim>\<open>PluginResult\<close> and
  \<^verbatim>\<open>ReactAgentResult\<close> are imported from \<^verbatim>\<open>@/types/agent\<close>, which is not among the
  sources. A tool descriptor has the six fields that
  \<^verbatim>\<open>parseResultForNotConversational\<close> copies; a prior step record has the fields the
  scratchpad loops read; a decision is tagged \<^verbatim>\<open>'action'\<close> or \<^verbatim>\<open>'answer'\<close>.
\<close>

record Plugin =
  nameForModel :: string
  nameForHuman :: string
  descriptionForHuman :: string
  descriptionForModel :: string
  logoUrl :: "string option"
  displayForUser :: bool

record Action =
  thought :: string
  plugin :: Plugin
  pluginInput :: string

record PluginResult =
  action :: Action
  result :: string

datatype ReactAgentResult = ActionResult Action | AnswerResult string

datatype error = Error string

section \<open>The response parsers\<close>

subsection \<open>\<^verbatim>\<open>_parseResult\<close> (conversational)\<close>

definition parseResult :: "Plugin list \<Rightarrow> string \<Rightarrow> error + ReactAgentResult" where
  "parseResult tools res =
     (let matchThought = match res [DotStarGroup, Lit ''\<newline>Action:''];
          thought = (case matchThought of Some m1 \<Rightarrow> m1 | None \<Rightarrow> []);
          matchAction = match res [Lit ''Action: '', DotStarGroup]
      in if thought \<noteq> [] \<and> matchAction \<noteq> None then
           (let actionStr = the matchAction;
                matchActionInput = match res [Lit ''Action Input: '', DotStarGroup];
                toolInputStr = (case matchActionInput of Some m1 \<Rightarrow> m1 | None \<Rightarrow> []);
                toolInput = stripQuotes (trim toolInputStr);
                action = stripQuotes (trim actionStr)
            in case find (\<lambda>tool. nameForModel tool = action) tools of
                 None \<Rightarrow> Inl (Error (''Tool not found: '' @ action))
               | Some tool \<Rightarrow>
                   Inr (ActionResult
                     \<lparr>thought = trim thought, plugin = tool, pluginInput = toolInput\<rparr>))
         else
           (let matchAnswer = match res [Lit ''AI:'', DotStarGroup];
                answer = (case matchAnswer of Some m1 \<Rightarrow> m1 | None \<Rightarrow> [])
            in Inr (AnswerResult answer)))"

subsection \<open>\<^verbatim>\<open>parseResultForNotConversational\<close>\<close>

definition parseResultForNotConversational ::
  "Plugin list \<Rightarrow> string \<Rightarrow> error + ReactAgentResult" where
  "parseResultForNotConversational tools res =
     (let matchAnswer = match res [Lit ''Final Answer:'', DotStarGroup];
          answer = (case matchAnswer of Some m1 \<Rightarrow> m1 | None \<Rightarrow> []);
          answerResult = AnswerResult (trim answer);
          matchPositivity = match res [Lit ''\<newline>Positivity:'', DotStarGroup]
      in if matchPositivity \<noteq> None \<and> geNine (parseFloat (trim (the matchPositivity)))
            \<and> answer \<noteq> []
         then Inr answerResult
         else
           (let matchThought = match res [DotStarGroup, Lit ''\<newline>Action:''];
                thought = (case matchThought of Some m1 \<Rightarrow> m1 | None \<Rightarrow> []);
                matchAction = match res [Lit ''Action:'', DotStarGroup, NewlineOrEnd];
                action =
                  (if thought \<noteq> [] \<and> matchAction \<noteq> None
                   then stripQuotes (trim (the matchAction)) else [])
            in if thought \<noteq> [] \<and> action \<noteq> [] \<and> indexOf action ''None'' = - 1 then
                 (case find (\<lambda>t. nameForModel t = action) tools of
                    None \<Rightarrow>
                      if answer \<noteq> [] then Inr answerResult
                      else Inl (Error (''Tool '' @ action @ '' not found''))
                  | Some tool \<Rightarrow>
                      (let matchActionInput =
                             match res [Lit ''Action Input: '', DotStarGroup, NewlineOrEnd];
                           toolInputStr =
                             (case matchActionInput of Some m1 \<Rightarrow> m1 | None \<Rightarrow> []);
                           toolInput = stripQuotes (trim toolInputStr)
                       in Inr (ActionResult
                            \<lparr>thought = trim thought,
                             plugin =
                               \<lparr>nameForModel = nameForModel tool,
                                nameForHuman = nameForHuman tool,
                                descriptionForHuman = descriptionForHuman tool,
                                descriptionForModel = descriptionForModel tool,
                                logoUrl = logoUrl tool,
                                displayForUser = displayForUser tool\<rparr>,
                             pluginInput = toolInput\<rparr>)))
               else Inr answerResult))"

section \<open>The scratchpad builders\<close>

text \<open>\<^verbatim>\<open>str.split(sep)\<close> for a separator of one character: never empty.\<close>

fun split_str :: "string \<Rightarrow> char \<Rightarrow> string list" where
  "split_str [] sep = [[]]"
| "split_str (c # cs) sep =
     (if c = sep then [] # split_str cs sep
      else (case split_str cs sep of
              [] \<Rightarrow> [[c]]
            | x # xs \<Rightarrow> (c # x) # xs))"

text \<open>
  The loop of \<^verbatim>\<open>executeReactAgent\<close>. Its template interpolates
  \<^verbatim>\<open>actionResult.action.plugin\<close>, the tool descriptor itself, so the text that follows
  \<^verbatim>\<open>Action:\<close> is the string conversion of that object; the conversion is the parameter
  \<open>toString\<close>. \<open>objectToString\<close> is the conversion of an object that does not define
  its own.
\<close>

definition objectToString :: "Plugin \<Rightarrow> string" where
  "objectToString p = ''[object Object]''"

definition executeReactAgent_agentScratchpad ::
  "(Plugin \<Rightarrow> string) \<Rightarrow> PluginResult list \<Rightarrow> string" where
  "executeReactAgent_agentScratchpad toString toolActionResults =
     (if length toolActionResults > 0 then
        foldl (\<lambda>agentScratchpad actionResult.
                 agentScratchpad @
                 ''Thought:'' @ thought (action actionResult) @
                 ''\<newline>Action:'' @ toString (plugin (action actionResult)) @
                 ''\<newline>Action Input: '' @ pluginInput (action actionResult) @
                 ''\<newline>Observation: '' @ result actionResult @ ''\<newline>'')
          [] toolActionResults
      else []) @ ''Thought:''"

text \<open>The loop of \<^verbatim>\<open>executeNotConversationalReactAgent\<close>.\<close>

definition executeNotConversationalReactAgent_agentScratchpad ::
  "PluginResult list \<Rightarrow> string" where
  "executeNotConversationalReactAgent_agentScratchpad toolActionResults =
     (if length toolActionResults > 0 then
        foldl (\<lambda>agentScratchpad actionResult.
                 (let observation =
                        (if length (split_str (result actionResult) CHR 0x0A) > 5
                         then [CHR 0x22, CHR 0x22, CHR 0x22] @ ''\<newline>'' @
                              result actionResult @
                              ''\<newline>'' @ [CHR 0x22, CHR 0x22, CHR 0x22]
                         else result actionResult)
                  in agentScratchpad @
                     ''Thought: '' @ thought (action actionResult) @
                     ''\<newline>Action: '' @ nameForModel (plugin (action actionResult)) @
                     ''\<newline>Action Input: '' @ pluginInput (action actionResult) @
                     ''\<newline>Observation: '' @ observation @ ''\<newline>''))
          [] toolActionResults
      else []) @ ''Thought:''"

section \<open>Notions used in the statements\<close>

text \<open>
  The rest of the line that \<open>s\<close> starts with, and the last line of \<open>s\<close>: the text up
  to the first, respectively after the last, line terminator.
\<close>

definition restOfLine :: "string \<Rightarrow> string" where
  "restOfLine s = takeWhile (\<lambda>c. \<not> isLineTerminator c) s"

definition lastLine :: "string \<Rightarrow> string" where
  "lastLine s = rev (takeWhile (\<lambda>c. \<not> isLineTerminator c) (rev s))"

text \<open>
  The text before and the text after the first occurrence of \<open>sub\<close> in a string
  (the whole string, respectively nothing, when \<open>sub\<close> does not occur).
\<close>

fun before :: "string \<Rightarrow> string \<Rightarrow> string" where
  "before [] sub = []"
| "before (c # cs) sub =
     (if dropPrefix sub (c # cs) \<noteq> None then [] else c # before cs sub)"

fun after :: "string \<Rightarrow> string \<Rightarrow> string" where
  "after [] sub = []"
| "after (c # cs) sub =
     (case dropPrefix sub (c # cs) of Some r \<Rightarrow> r | None \<Rightarrow> after cs sub)"

text \<open>
  The candidate answer of the non-conversational parser and the tool input of the
  conversational one, as text: the rest of the line after the first marker, empty when
  there is no marker.
\<close>

definition finalAnswerText :: "string \<Rightarrow> string" where
  "finalAnswerText s =
     (if includes_str s ''Final Answer:'' then restOfLine (after s ''Final Answer:'') else [])"

definition actionInputText :: "string \<Rightarrow> string" where
  "actionInputText s =
     (if includes_str s ''Action Input: '' then restOfLine (after s ''Action Input: '') else [])"

text \<open>
  What the conversational parser reads, as text: the thought line is the line that ends
  at the first line feed directly followed by \<^verbatim>\<open>Action:\<close>; the action string is the
  rest of the line after the first \<^verbatim>\<open>Action: \<close> (the marker followed by a space),
  trimmed and quote-stripped; the answer is the rest of the line after the first
  \<^verbatim>\<open>AI:\<close>, empty when there is none.
\<close>

definition thoughtLine :: "string \<Rightarrow> string" where
  "thoughtLine s = lastLine (before s ''\<newline>Action:'')"

definition actionText :: "string \<Rightarrow> string" where
  "actionText s = stripQuotes (trim (restOfLine (after s ''Action: '')))"

definition aiAnswerText :: "string \<Rightarrow> string" where
  "aiAnswerText s =
     (if includes_str s ''AI:'' then restOfLine (after s ''AI:'') else [])"

text \<open>
  A decimal number that is at least 9, as the claims use the words: digits, optionally
  followed by a point and more digits, whose integer part is at least 9.
\<close>

definition decimalAtLeastNine :: "string \<Rightarrow> bool" where
  "decimalAtLeastNine t \<longleftrightarrow>
     (let ip = takeWhile isDecimalDigit t; r = dropWhile isDecimalDigit t
      in ip \<noteq> [] \<and> 9 \<le> decimalDigitsValue ip \<and>
         (r = [] \<or> (hd r = CHR ''.'' \<and> list_all isDecimalDigit (tl r))))"

text \<open>
  The thought as the specification words it: everything that precedes the first
  \<^verbatim>\<open>Action:\<close> marker, trimmed.
\<close>

definition thoughtAsSpecified :: "string \<Rightarrow> string" where
  "thoughtAsSpecified s = trim (before s ''Action:'')"

text \<open>
  The four lines of one prior step as the specification words them for both modes, and
  the scratchpad made of them.
\<close>

definition stepAsSpecified :: "PluginResult \<Rightarrow> string" where
  "stepAsSpecified r =
     ''Thought:'' @ thought (action r) @
     ''\<newline>Action:'' @ nameForModel (plugin (action r)) @
     ''\<newline>Action Input: '' @ pluginInput (action r) @
     ''\<newline>Observation: '' @ result r @ ''\<newline>''"

definition scratchpadAsSpecified :: "PluginResult list \<Rightarrow> string" where
  "scratchpadAsSpecified rs = concat (map stepAsSpecified rs) @ ''Thought:''"

text \<open>
  The text that each builder adds for one prior step. In the non-conversational mode an
  observation with at least five line feeds is fenced in triple quotes.
\<close>

definition conversationalStep :: "(Plugin \<Rightarrow> string) \<Rightarrow> PluginResult \<Rightarrow> string" where
  "conversationalStep toString r =
     ''Thought:'' @ thought (action r) @
     ''\<newline>Action:'' @ toString (plugin (action r)) @
     ''\<newline>Action Input: '' @ pluginInput (action r) @
     ''\<newline>Observation: '' @ result r @ ''\<newline>''"

definition fencedObservation :: "string \<Rightarrow> string" where
  "fencedObservation obs =
     (if 5 \<le> count_list obs CHR 0x0A
      then [CHR 0x22, CHR 0x22, CHR 0x22, CHR 0x0A] @ obs @ [CHR 0x0A, CHR 0x22, CHR 0x22, CHR 0x22]
      else obs)"

definition notConversationalStep :: "PluginResult \<Rightarrow> string" where
  "notConversationalStep r =
     ''Thought: '' @ thought (action r) @
     ''\<newline>Action: '' @ nameForModel (plugin (action r)) @
     ''\<newline>Action Input: '' @ pluginInput (action r) @
     ''\<newline>Observation: '' @ fencedObservation (result r) @ ''\<newline>''"

text \<open>Example data: the tool and the prior step used in the examples.\<close>

definition web_search :: Plugin where
  "web_search =
     \<lparr>nameForModel = ''web_search'', nameForHuman = ''Web search'',
      descriptionForHuman = ''Search the web.'', descriptionForModel = ''Searches the web.'',
      logoUrl = None, displayForUser = True\<rparr>"

definition searchStep :: PluginResult where
  "searchStep =
     \<lparr>action = \<lparr>thought = ''I should search.'', plugin = web_search,
                pluginInput = ''weather today''\<rparr>,
      result = ''Sunny.''\<rparr>"

section \<open>Literals, substrings and the three shapes of expression\<close>

lemma dropPrefix_Some_iff: "dropPrefix p s = Some r \<longleftrightarrow> s = p @ r"
  by (induction p s rule: dropPrefix.induct) auto

lemma dropPrefix_append [simp]: "dropPrefix p (p @ r) = Some r"
  by (simp add: dropPrefix_Some_iff)

text \<open>\<open>includes_str\<close> is the substring relation.\<close>

lemma includes_str_iff: "includes_str s sub \<longleftrightarrow> (\<exists>pre post. s = pre @ sub @ post)"
proof (induction s)
  case Nil
  then show ?case by auto
next
  case (Cons c cs)
  show ?case
  proof
    assume "includes_str (c # cs) sub"
    then consider r where "dropPrefix sub (c # cs) = Some r" | "includes_str cs sub"
      by auto
    then show "\<exists>pre post. c # cs = pre @ sub @ post"
    proof cases
      case 1
      then have "c # cs = [] @ sub @ r" by (simp add: dropPrefix_Some_iff)
      then show ?thesis by blast
    next
      case 2
      then obtain pre post where "cs = pre @ sub @ post" using Cons.IH by blast
      then have "c # cs = (c # pre) @ sub @ post" by simp
      then show ?thesis by blast
    qed
  next
    assume "\<exists>pre post. c # cs = pre @ sub @ post"
    then obtain pre post where eq: "c # cs = pre @ sub @ post" by blast
    show "includes_str (c # cs) sub"
    proof (cases pre)
      case Nil
      with eq have "dropPrefix sub (c # cs) = Some post" by (simp add: dropPrefix_Some_iff)
      then show ?thesis by simp
    next
      case (Cons x pre')
      with eq have "cs = pre' @ sub @ post" by simp
      then have "includes_str cs sub" using Cons.IH by blast
      then show ?thesis by simp
    qed
  qed
qed

lemma indexOf_ge: "- 1 \<le> indexOf s sub"
  by (induction s) (auto simp: Let_def)

lemma indexOf_minus1_iff: "indexOf s sub = - 1 \<longleftrightarrow> \<not> includes_str s sub"
proof (induction s)
  case Nil
  then show ?case by simp
next
  case (Cons c cs)
  have "- 1 \<le> indexOf cs sub" by (rule indexOf_ge)
  then have "indexOf cs sub + 1 \<noteq> - 1" by arith
  with Cons show ?case by (auto simp: Let_def)
qed

text \<open>
  \<^verbatim>\<open>/l(.*)/\<close>: the expression matches exactly when the literal occurs, and group 1 is
  the rest of the line after its first occurrence.
\<close>

lemma matchHere_DotStar: "matchHere [DotStarGroup] s = Some (restOfLine s)"
  by (induction s) (auto simp: restOfLine_def)

lemma matchHere_Lit_DotStar:
  "matchHere [Lit l, DotStarGroup] s =
     (case dropPrefix l s of None \<Rightarrow> None | Some r \<Rightarrow> Some (restOfLine r))"
  by (simp add: matchHere_DotStar split: option.splits)

lemma match_Lit_DotStar:
  "match s [Lit l, DotStarGroup] =
     (if includes_str s l then Some (restOfLine (after s l)) else None)"
proof (induction s)
  case Nil
  show ?case by (cases l) (simp_all add: matchHere_DotStar restOfLine_def)
next
  case (Cons c cs)
  show ?case
  proof (cases "dropPrefix l (c # cs)")
    case None
    then show ?thesis using Cons by (simp del: matchHere.simps add: matchHere_Lit_DotStar)
  next
    case (Some r)
    then show ?thesis by (simp del: matchHere.simps add: matchHere_Lit_DotStar)
  qed
qed

lemma includes_str_mono:
  "includes_str s (a @ l @ b) \<Longrightarrow> includes_str s l"
proof -
  assume "includes_str s (a @ l @ b)"
  then obtain pre post where "s = pre @ (a @ l @ b) @ post" unfolding includes_str_iff by blast
  then have "s = (pre @ a) @ l @ (b @ post)" by simp
  then show ?thesis unfolding includes_str_iff by blast
qed

(* any match of an expression starting with a literal needs the literal *)
lemma matchHere_Lit_includes:
  "matchHere (Lit l # rx) s = Some g \<Longrightarrow> includes_str s l"
  by (auto simp: includes_str_iff dropPrefix_Some_iff split: option.splits intro: exI[of _ "[]"])

lemma match_Lit_includes:
  "match s (Lit l # rx) = Some g \<Longrightarrow> includes_str s l"
proof (induction s)
  case Nil
  then have "matchHere (Lit l # rx) [] = Some g" by (simp del: matchHere.simps)
  then show ?case by (rule matchHere_Lit_includes)
next
  case (Cons c cs)
  show ?case
  proof (cases "matchHere (Lit l # rx) (c # cs)")
    case None
    with Cons have "includes_str cs l" by (simp del: matchHere.simps)
    then show ?thesis by simp
  next
    case (Some a)
    then show ?thesis using matchHere_Lit_includes by blast
  qed
qed


lemma matchHere_DotStar_Lit:
  assumes "m \<noteq> []" "isLineTerminator (hd m)"
  shows "matchHere [DotStarGroup, Lit m] s =
     (if dropPrefix m (dropWhile (\<lambda>c. \<not> isLineTerminator c) s) \<noteq> None
      then Some (restOfLine s) else None)"
proof (induction s)
  case Nil
  then show ?case by (auto simp: restOfLine_def split: option.splits)
next
  case (Cons c cs)
  show ?case
  proof (cases "isLineTerminator c")
    case True
    then show ?thesis by (auto simp: restOfLine_def split: option.splits)
  next
    case False
    have "dropPrefix m (c # cs) = None"
      using assms False by (cases m) auto
    with False Cons show ?thesis by (auto simp: restOfLine_def split: option.splits)
  qed
qed

lemma match_DotStar_Lit_includes:
  assumes "m \<noteq> []" "isLineTerminator (hd m)"
  shows "match s [DotStarGroup, Lit m] = Some g \<Longrightarrow> includes_str s m"
proof (induction s)
  case Nil
  then show ?case using assms by (cases m) (auto split: option.splits)
next
  case (Cons c cs)
  show ?case
  proof (cases "matchHere [DotStarGroup, Lit m] (c # cs)")
    case None
    with Cons have "includes_str cs m" by (simp del: matchHere.simps)
    then show ?thesis by simp
  next
    case (Some a)
    then obtain r where "dropPrefix m (dropWhile (\<lambda>c. \<not> isLineTerminator c) (c # cs)) = Some r"
      unfolding matchHere_DotStar_Lit[OF assms] by (auto split: if_splits)
    then have "dropWhile (\<lambda>c. \<not> isLineTerminator c) (c # cs) = m @ r"
      by (simp add: dropPrefix_Some_iff)
    then have "c # cs = takeWhile (\<lambda>c. \<not> isLineTerminator c) (c # cs) @ m @ r"
      by (metis takeWhile_dropWhile_id)
    then show ?thesis unfolding includes_str_iff by blast
  qed
qed

lemma before_after: "includes_str s m \<Longrightarrow> s = before s m @ m @ after s m"
proof (induction s)
  case Nil
  then show ?case by simp
next
  case (Cons c cs)
  show ?case
  proof (cases "dropPrefix m (c # cs)")
    case None
    with Cons show ?thesis by simp
  next
    case (Some r)
    then have "before (c # cs) m = []" "after (c # cs) m = r" by simp_all
    moreover from Some have "c # cs = m @ r" by (simp add: dropPrefix_Some_iff)
    ultimately show ?thesis by simp
  qed
qed

lemma before_no_terminator:
  assumes "m \<noteq> []" "isLineTerminator (hd m)" "\<forall>x\<in>set t. \<not> isLineTerminator x"
  shows "before (t @ m @ r) m = t"
  using assms(3)
proof (induction t)
  case Nil
  from assms(1) obtain x xs where "m = x # xs" by (cases m) auto
  then have "before (m @ r) m = (if dropPrefix m (m @ r) \<noteq> None then [] else x # before (xs @ r) m)"
    by simp
  then show ?case by simp
next
  case (Cons x t)
  then have "\<not> isLineTerminator x" by simp
  with assms(1,2) have "dropPrefix m (x # t @ m @ r) = None" by (cases m) auto
  with Cons show ?case by simp
qed

lemma lastLine_no_terminator:
  "\<forall>x\<in>set t. \<not> isLineTerminator x \<Longrightarrow> lastLine t = t"
proof -
  assume "\<forall>x\<in>set t. \<not> isLineTerminator x"
  then have "takeWhile (\<lambda>c. \<not> isLineTerminator c) (rev t) = rev t"
    by simp
  then show ?thesis unfolding lastLine_def by (simp only: rev_rev_ident)
qed

lemma lastLine_Cons_terminator:
  "\<exists>x\<in>set t. isLineTerminator x \<Longrightarrow> lastLine (c # t) = lastLine t"
  by (auto simp: lastLine_def takeWhile_append)

lemma lastLine_Cons_line_feed:
  assumes "\<forall>x\<in>set t. \<not> isLineTerminator x" "isLineTerminator c"
  shows "lastLine (c # t) = lastLine t"
proof -
  let ?nt = "\<lambda>c. \<not> isLineTerminator c"
  have "takeWhile ?nt (rev t @ [c]) = rev t @ takeWhile ?nt [c]"
    by (rule takeWhile_append2) (use assms(1) in auto)
  also have "\<dots> = rev t" using assms(2) by simp
  finally have "lastLine (c # t) = t" by (simp add: lastLine_def)
  then show ?thesis using lastLine_no_terminator[OF assms(1)] by simp
qed

lemma set_restOfLine: "\<forall>x\<in>set (restOfLine s). \<not> isLineTerminator x"
  unfolding restOfLine_def by (metis (mono_tags, lifting) set_takeWhileD)

lemma match_DotStar_Lit:
  assumes "m \<noteq> []" "isLineTerminator (hd m)"
  shows "match s [DotStarGroup, Lit m] = Some g \<Longrightarrow> g = lastLine (before s m)"
proof (induction s)
  case Nil
  then show ?case using assms by (cases m) (auto split: option.splits)
next
  case (Cons c cs)
  let ?nt = "\<lambda>c. \<not> isLineTerminator c"
  show ?case
  proof (cases "matchHere [DotStarGroup, Lit m] (c # cs)")
    case (Some a)
    with Cons.prems have ag: "a = g" by (simp del: matchHere.simps)
    from Some obtain r where r: "dropPrefix m (dropWhile ?nt (c # cs)) = Some r"
      and g: "a = restOfLine (c # cs)"
      unfolding matchHere_DotStar_Lit[OF assms] by (auto split: if_splits)
    from r have "dropWhile ?nt (c # cs) = m @ r" by (simp add: dropPrefix_Some_iff)
    then have "c # cs = restOfLine (c # cs) @ m @ r"
      unfolding restOfLine_def by (metis takeWhile_dropWhile_id)
    then have "before (c # cs) m = before (restOfLine (c # cs) @ m @ r) m" by simp
    also have "\<dots> = restOfLine (c # cs)"
      by (rule before_no_terminator[OF assms set_restOfLine])
    finally have "lastLine (before (c # cs) m) = restOfLine (c # cs)"
      by (simp only: lastLine_no_terminator[OF set_restOfLine])
    with ag g show ?thesis by simp
  next
    case None
    with Cons.prems have mcs: "match cs [DotStarGroup, Lit m] = Some g"
      by (simp del: matchHere.simps)
    then have IH: "g = lastLine (before cs m)" by (rule Cons.IH)
    from mcs have inc: "includes_str cs m" by (rule match_DotStar_Lit_includes[OF assms])
    from None have fail: "dropPrefix m (dropWhile ?nt (c # cs)) = None"
      unfolding matchHere_DotStar_Lit[OF assms] by (auto split: if_splits)
    have nohead: "dropPrefix m (c # cs) = None"
    proof (rule ccontr)
      assume "dropPrefix m (c # cs) \<noteq> None"
      then obtain r where "c # cs = m @ r" by (auto simp: dropPrefix_Some_iff)
      with assms have "isLineTerminator c" by (cases m) auto
      then have "dropWhile ?nt (c # cs) = c # cs" by simp
      with fail \<open>dropPrefix m (c # cs) \<noteq> None\<close> show False by simp
    qed
    then have bef: "before (c # cs) m = c # before cs m" by simp
    have "(\<exists>x\<in>set (before cs m). isLineTerminator x) \<or> isLineTerminator c"
    proof (rule ccontr)
      assume "\<not> ((\<exists>x\<in>set (before cs m). isLineTerminator x) \<or> isLineTerminator c)"
      then have nt: "\<forall>x\<in>set (c # before cs m). ?nt x" by auto
      have cs: "c # cs = (c # before cs m) @ m @ after cs m"
        using before_after[OF inc] by simp
      from assms obtain y ys where m: "m = y # ys" and y: "isLineTerminator y" by (cases m) auto
      have "dropWhile ?nt ((c # before cs m) @ m @ after cs m) = m @ after cs m"
        using nt y unfolding m by (subst dropWhile_append2) auto
      with cs have "dropWhile ?nt (c # cs) = m @ after cs m" by simp
      with fail show False by simp
    qed
    then consider "\<exists>x\<in>set (before cs m). isLineTerminator x"
      | "\<forall>x\<in>set (before cs m). ?nt x" "isLineTerminator c" by blast
    then have "lastLine (c # before cs m) = lastLine (before cs m)"
    proof cases
      case 1
      then show ?thesis by (rule lastLine_Cons_terminator)
    next
      case 2
      then show ?thesis by (rule lastLine_Cons_line_feed)
    qed
    with bef IH show ?thesis by simp
  qed
qed

lemma match_Some_split:
  "match s rx = Some g \<Longrightarrow> \<exists>pre post. s = pre @ post \<and> matchHere rx post = Some g"
proof (induction s)
  case Nil
  then show ?case by (simp del: matchHere.simps)
next
  case (Cons c cs)
  show ?case
  proof (cases "matchHere rx (c # cs)")
    case None
    with Cons.prems have "match cs rx = Some g" by (simp del: matchHere.simps)
    then obtain pre post where "cs = pre @ post" "matchHere rx post = Some g"
      using Cons.IH by blast
    then have "c # cs = (c # pre) @ post \<and> matchHere rx post = Some g" by simp
    then show ?thesis by blast
  next
    case (Some a)
    with Cons.prems have "c # cs = [] @ (c # cs) \<and> matchHere rx (c # cs) = Some g"
      by (simp del: matchHere.simps)
    then show ?thesis by blast
  qed
qed

lemma matchHere_DotStar_Lit_split:
  "matchHere [DotStarGroup, Lit l] r = Some g \<Longrightarrow> \<exists>post. r = g @ l @ post"
proof (induction r arbitrary: g)
  case Nil
  then show ?case by (auto simp: dropPrefix_Some_iff split: option.splits)
next
  case (Cons c cs)
  show ?case
  proof (cases "matchHere [DotStarGroup, Lit l] cs")
    case None
    with Cons.prems have "matchHere [Lit l] (c # cs) = Some g"
      by (auto split: if_splits)
    then show ?thesis by (auto simp: dropPrefix_Some_iff split: option.splits)
  next
    case (Some a)
    show ?thesis
    proof (cases "isLineTerminator c")
      case True
      with Cons.prems have "matchHere [Lit l] (c # cs) = Some g" by simp
      then show ?thesis by (auto simp: dropPrefix_Some_iff split: option.splits)
    next
      case False
      with Some Cons.prems have g: "g = c # a" by simp
      from Some obtain post where "cs = a @ l @ post" using Cons.IH by blast
      with g show ?thesis by simp
    qed
  qed
qed

lemma match_append_Some:
  "matchHere rx post = Some g \<Longrightarrow> match (pre @ post) rx \<noteq> None"
proof (induction pre)
  case Nil
  then show ?case by (cases post) (simp_all del: matchHere.simps)
next
  case (Cons x pre)
  then show ?case by (simp del: matchHere.simps split: option.splits)
qed

lemma lastLine_split: "b = rev (dropWhile (\<lambda>c. \<not> isLineTerminator c) (rev b)) @ lastLine b"
proof -
  let ?nt = "\<lambda>c. \<not> isLineTerminator c"
  have "rev (dropWhile ?nt (rev b)) @ rev (takeWhile ?nt (rev b)) =
          rev (takeWhile ?nt (rev b) @ dropWhile ?nt (rev b))"
    by (simp only: rev_append)
  also have "\<dots> = b" by (simp only: takeWhile_dropWhile_id rev_rev_ident)
  finally show ?thesis by (simp only: lastLine_def)
qed

lemma set_lastLine: "\<forall>x\<in>set (lastLine b). \<not> isLineTerminator x"
  unfolding lastLine_def by (metis (mono_tags, lifting) set_rev set_takeWhileD)

text \<open>
  \<^verbatim>\<open>/(.*)m/\<close> for a literal \<open>m\<close> that begins with a line terminator: the expression
  matches exactly when \<open>m\<close> occurs, and group 1 is the line that ends where \<open>m\<close> first
  occurs.
\<close>

lemma match_DotStar_Lit_iff:
  assumes "m \<noteq> []" "isLineTerminator (hd m)"
  shows "match s [DotStarGroup, Lit m] =
           (if includes_str s m then Some (lastLine (before s m)) else None)"
proof (cases "includes_str s m")
  case False
  then have "match s [DotStarGroup, Lit m] = None"
    using match_DotStar_Lit_includes[OF assms] by (metis not_Some_eq)
  with False show ?thesis by simp
next
  case True
  let ?nt = "\<lambda>c. \<not> isLineTerminator c"
  let ?b = "before s m"
  let ?post = "lastLine ?b @ m @ after s m"
  from assms obtain y ys where m: "m = y # ys" and y: "isLineTerminator y"
    by (cases m) auto
  have "dropWhile ?nt ?post = dropWhile ?nt (m @ after s m)"
    by (rule dropWhile_append2) (use set_lastLine[of ?b] in simp)
  also have "\<dots> = m @ after s m" using y by (simp add: m)
  finally have "dropWhile ?nt ?post = m @ after s m" .
  then have "matchHere [DotStarGroup, Lit m] ?post = Some (restOfLine ?post)"
    unfolding matchHere_DotStar_Lit[OF assms] by simp
  then have "match (rev (dropWhile ?nt (rev ?b)) @ ?post) [DotStarGroup, Lit m] \<noteq> None"
    by (rule match_append_Some)
  moreover have "rev (dropWhile ?nt (rev ?b)) @ ?post = s"
    using before_after[OF True] lastLine_split[of ?b] by (metis append.assoc)
  ultimately obtain g where g: "match s [DotStarGroup, Lit m] = Some g" by auto
  then have "g = lastLine ?b" by (rule match_DotStar_Lit[OF assms])
  with g True show ?thesis by simp
qed

text \<open>
  \<^verbatim>\<open>/l(.*)(\n|$)/\<close>: a match needs, after the literal, a line that ends in a line feed
  or with the input. Where the text has no carriage return this is every line, and the
  expression reads what \<^verbatim>\<open>/l(.*)/\<close> reads.
\<close>

lemma matchHere_DotStar_End:
  "matchHere [DotStarGroup, NewlineOrEnd] r =
     (if dropWhile (\<lambda>c. \<not> isLineTerminator c) r = [] \<or>
         hd (dropWhile (\<lambda>c. \<not> isLineTerminator c) r) = CHR 0x0A
      then Some (restOfLine r) else None)"
proof (induction r)
  case Nil
  then show ?case by (simp add: restOfLine_def)
next
  case (Cons c cs)
  show ?case
  proof (cases "isLineTerminator c")
    case True
    have "isLineTerminator CHR 0x0A" by (simp add: isLineTerminator_def)
    with True show ?thesis by (simp add: restOfLine_def)
  next
    case False
    then have "c \<noteq> CHR 0x0A" by (auto simp: isLineTerminator_def)
    with False Cons show ?thesis by (simp add: restOfLine_def)
  qed
qed

lemma match_Lit_DotStar_End_split:
  assumes "match s [Lit l, DotStarGroup, NewlineOrEnd] = Some g"
  shows "\<exists>pre post. s = pre @ l @ g @ post \<and> (\<forall>x\<in>set g. \<not> isLineTerminator x) \<and>
           (post = [] \<or> hd post = CHR 0x0A)"
proof -
  let ?nt = "\<lambda>c. \<not> isLineTerminator c"
  from match_Some_split[OF assms] obtain pre u
    where s: "s = pre @ u" and u: "matchHere [Lit l, DotStarGroup, NewlineOrEnd] u = Some g"
    by blast
  from u obtain r where r: "u = l @ r" and m: "matchHere [DotStarGroup, NewlineOrEnd] r = Some g"
    by (auto simp: dropPrefix_Some_iff split: option.splits simp del: matchHere.simps(3-6))
  from m have g: "g = restOfLine r"
    and e: "dropWhile ?nt r = [] \<or> hd (dropWhile ?nt r) = CHR 0x0A"
    unfolding matchHere_DotStar_End by (auto split: if_splits)
  have "r = g @ dropWhile ?nt r" unfolding g restOfLine_def by simp
  with s r have "s = pre @ l @ g @ dropWhile ?nt r" by simp
  moreover have "\<forall>x\<in>set g. \<not> isLineTerminator x" unfolding g by (rule set_restOfLine)
  ultimately show ?thesis using e by blast
qed

lemma matchHere_End_no_CR:
  assumes "CHR 0x0D \<notin> set u"
  shows "matchHere [Lit l, DotStarGroup, NewlineOrEnd] u = matchHere [Lit l, DotStarGroup] u"
proof (cases "dropPrefix l u")
  case None
  then show ?thesis by simp
next
  case (Some r)
  let ?nt = "\<lambda>c. \<not> isLineTerminator c"
  from Some have "u = l @ r" by (simp add: dropPrefix_Some_iff)
  with assms have "CHR 0x0D \<notin> set (dropWhile ?nt r)"
    using set_dropWhileD by fastforce
  moreover have "dropWhile ?nt r \<noteq> [] \<Longrightarrow> isLineTerminator (hd (dropWhile ?nt r))"
    using hd_dropWhile by blast
  ultimately have "dropWhile ?nt r = [] \<or> hd (dropWhile ?nt r) = CHR 0x0A"
    by (metis isLineTerminator_def hd_in_set)
  then have "matchHere [DotStarGroup, NewlineOrEnd] r = Some (restOfLine r)"
    unfolding matchHere_DotStar_End by simp
  with Some show ?thesis by (simp add: matchHere_DotStar del: matchHere.simps(3-6))
qed

lemma match_End_no_CR:
  "CHR 0x0D \<notin> set s \<Longrightarrow>
     match s [Lit l, DotStarGroup, NewlineOrEnd] = match s [Lit l, DotStarGroup]"
proof (induction s)
  case Nil
  then show ?case using matchHere_End_no_CR[of "[]"] by (simp del: matchHere.simps)
next
  case (Cons c cs)
  then have "matchHere [Lit l, DotStarGroup, NewlineOrEnd] (c # cs) =
             matchHere [Lit l, DotStarGroup] (c # cs)"
    by (intro matchHere_End_no_CR)
  with Cons show ?case by (simp del: matchHere.simps split: option.splits)
qed

section \<open>Quote stripping\<close>

lemma strip_match_split:
  assumes "match s [Lit [c], DotStarGroup, Lit [c]] = Some g"
  shows "\<exists>pre post. s = pre @ [c] @ g @ [c] @ post"
proof -
  from match_Some_split[OF assms] obtain pre r
    where s: "s = pre @ r" and m: "matchHere [Lit [c], DotStarGroup, Lit [c]] r = Some g"
    by blast
  from m obtain r' where r: "r = [c] @ r'" and m': "matchHere [DotStarGroup, Lit [c]] r' = Some g"
    by (auto simp: dropPrefix_Some_iff split: option.splits simp del: matchHere.simps(5,6))
  from matchHere_DotStar_Lit_split[OF m'] obtain post where "r' = g @ [c] @ post" by blast
  with s r show ?thesis by blast
qed

text \<open>A string with fewer than two occurrences of the quote is left as it is.\<close>

lemma strip_unchanged:
  assumes "count_list s c \<le> 1"
  shows "strip s [c] = s"
proof (cases "match s [Lit [c], DotStarGroup, Lit [c]]")
  case None
  then show ?thesis by (simp add: strip_def)
next
  case (Some g)
  from strip_match_split[OF Some] obtain pre post where "s = pre @ [c] @ g @ [c] @ post"
    by blast
  then have "count_list s c \<ge> 2" by simp
  with assms show ?thesis by simp
qed

text \<open>A body without line terminator, enclosed in a pair of quotes, loses exactly that pair.\<close>

lemma matchHere_DotStar_quote:
  assumes "\<not> isLineTerminator c" "\<forall>x\<in>set body. \<not> isLineTerminator x"
  shows "matchHere [DotStarGroup, Lit [c]] (body @ [c]) = Some body"
  using assms(2)
proof (induction body)
  case Nil
  then show ?case using assms(1) by simp
next
  case (Cons x body)
  then show ?case by simp
qed

lemma strip_enclosed:
  assumes "\<not> isLineTerminator c" "\<forall>x\<in>set body. \<not> isLineTerminator x"
  shows "strip (c # body @ [c]) [c] = body"
proof -
  have "matchHere [Lit [c], DotStarGroup, Lit [c]] (c # body @ [c]) = Some body"
    using matchHere_DotStar_quote[OF assms] by (simp del: matchHere.simps(5,6))
  then have "match (c # body @ [c]) [Lit [c], DotStarGroup, Lit [c]] = Some body"
    by (simp del: matchHere.simps)
  then show ?thesis by (simp add: strip_def)
qed

text \<open>
  Claim C6, as it holds: one call runs the double-quote pass and then the single-quote
  pass, and each pass removes at most one pair. A body without line terminator that is
  enclosed in double quotes first loses exactly that pair, and the single-quote pass is
  then applied to the body: a body that is itself enclosed in single quotes is reduced
  to what those enclose, inner double quotes kept (the double-quoted, single-quoted
  \<^verbatim>\<open>a"b"c\<close> gives \<^verbatim>\<open>a"b"c\<close>), and a body with at most one single quote is
  returned as it is. A body without line terminator that is enclosed in single quotes
  and holds at most one double quote is reduced to that body. A string with at most one
  double quote and at most one single quote is returned unchanged, and the
  double-quoted \<^verbatim>\<open>it's\<close> gives \<^verbatim>\<open>it's\<close>.
\<close>

theorem stripQuotes_single_layer:
  "((\<forall>x\<in>set body. \<not> isLineTerminator x) \<longrightarrow>
      stripQuotes (CHR 0x22 # body @ [CHR 0x22]) = strip body [CHR 0x27]) \<and>
   ((\<forall>x\<in>set body. \<not> isLineTerminator x) \<longrightarrow>
      stripQuotes (CHR 0x22 # CHR 0x27 # body @ [CHR 0x27, CHR 0x22]) = body) \<and>
   ((\<forall>x\<in>set body. \<not> isLineTerminator x) \<and> count_list body CHR 0x27 \<le> 1 \<longrightarrow>
      stripQuotes (CHR 0x22 # body @ [CHR 0x22]) = body) \<and>
   ((\<forall>x\<in>set body. \<not> isLineTerminator x) \<and> count_list body CHR 0x22 \<le> 1 \<longrightarrow>
      stripQuotes (CHR 0x27 # body @ [CHR 0x27]) = body) \<and>
   (count_list t CHR 0x22 \<le> 1 \<and> count_list t CHR 0x27 \<le> 1 \<longrightarrow> stripQuotes t = t) \<and>
   stripQuotes ''\"it's\"'' = ''it's'' \<and>
   stripQuotes (CHR 0x22 # CHR 0x27 # ''a\"b\"c'' @ [CHR 0x27, CHR 0x22]) = ''a\"b\"c''"
proof -
  have dq: "strip (CHR 0x22 # b @ [CHR 0x22]) [CHR 0x22] = b"
    if "\<forall>x\<in>set b. \<not> isLineTerminator x" for b
    using that by (intro strip_enclosed) (simp_all add: isLineTerminator_def)
  have sq: "strip (CHR 0x27 # b @ [CHR 0x27]) [CHR 0x27] = b"
    if "\<forall>x\<in>set b. \<not> isLineTerminator x" for b
    using that by (intro strip_enclosed) (simp_all add: isLineTerminator_def)
  have outer: "stripQuotes (CHR 0x22 # b @ [CHR 0x22]) = strip b [CHR 0x27]"
    if "\<forall>x\<in>set b. \<not> isLineTerminator x" for b
    using dq[OF that] by (simp add: stripQuotes_def)
  have nested: "stripQuotes (CHR 0x22 # CHR 0x27 # b @ [CHR 0x27, CHR 0x22]) = b"
    if "\<forall>x\<in>set b. \<not> isLineTerminator x" for b
  proof -
    from that have "\<forall>x\<in>set (CHR 0x27 # b @ [CHR 0x27]). \<not> isLineTerminator x"
      by (simp add: isLineTerminator_def)
    from outer[OF this] sq[OF that] show ?thesis by simp
  qed
  have one: "stripQuotes (CHR 0x22 # b @ [CHR 0x22]) = b"
    if "\<forall>x\<in>set b. \<not> isLineTerminator x" "count_list b CHR 0x27 \<le> 1" for b
    using outer[OF that(1)] strip_unchanged[OF that(2)] by simp
  have single: "stripQuotes (CHR 0x27 # b @ [CHR 0x27]) = b"
    if "\<forall>x\<in>set b. \<not> isLineTerminator x" "count_list b CHR 0x22 \<le> 1" for b
  proof -
    from that(2) have "count_list (CHR 0x27 # b @ [CHR 0x27]) CHR 0x22 \<le> 1" by simp
    then have "strip (CHR 0x27 # b @ [CHR 0x27]) [CHR 0x22] = CHR 0x27 # b @ [CHR 0x27]"
      by (rule strip_unchanged)
    with sq[OF that(1)] show ?thesis by (simp add: stripQuotes_def)
  qed
  have same: "stripQuotes t = t"
    if "count_list t CHR 0x22 \<le> 1" "count_list t CHR 0x27 \<le> 1"
    using that by (simp add: stripQuotes_def strip_unchanged)
  have its: "stripQuotes ''\"it's\"'' = ''it's''"
    by (simp add: stripQuotes_def strip_def isLineTerminator_def)
  have "\<forall>x\<in>set ''a\"b\"c''. \<not> isLineTerminator x" by (simp add: isLineTerminator_def)
  from nested[OF this]
  have ex: "stripQuotes (CHR 0x22 # CHR 0x27 # ''a\"b\"c'' @ [CHR 0x27, CHR 0x22]) = ''a\"b\"c''" .
  from outer nested one single same its ex show ?thesis by blast
qed

theorem stripQuotes_single_layer_witness:
  "stripQuotes (CHR 0x22 # ''\"foo\"'' @ [CHR 0x22]) = ''\"foo\"'' \<and>
   stripQuotes (CHR 0x22 # CHR 0x27 # ''foo'' @ [CHR 0x27, CHR 0x22]) = ''foo'' \<and>
   stripQuotes (CHR 0x27 # ''foo'' @ [CHR 0x27]) = ''foo'' \<and>
   stripQuotes ''it's'' = ''it's''"
proof -
  have nt: "\<forall>x\<in>set ''\"foo\"''. \<not> isLineTerminator x" "\<forall>x\<in>set ''foo''. \<not> isLineTerminator x"
    by (simp_all add: isLineTerminator_def)
  have c: "count_list ''\"foo\"'' CHR 0x27 \<le> 1" "count_list ''foo'' CHR 0x22 \<le> 1"
    "count_list ''it's'' CHR 0x22 \<le> 1" "count_list ''it's'' CHR 0x27 \<le> 1"
    by simp_all
  show ?thesis
    using stripQuotes_single_layer [of "''\"foo\"''" "''it's''"]
      stripQuotes_single_layer [of "''foo''" "''it's''"] nt c
    by blast
qed

theorem stripQuotes_drops_outside_counterexample:
  "hd ''a\"b\"c'' \<noteq> CHR 0x22 \<and> last ''a\"b\"c'' \<noteq> CHR 0x22 \<and>
   stripQuotes ''a\"b\"c'' = ''b'' \<and> stripQuotes ''a\"b\"c'' \<noteq> ''a\"b\"c''"
  by (simp add: stripQuotes_def strip_def isLineTerminator_def)




section \<open>The scratchpad builders\<close>

lemma length_split_str: "length (split_str s c) = count_list s c + 1"
  by (induction s) (auto split: list.splits)

lemma foldl_append_concat:
  "foldl (\<lambda>acc r. acc @ f r) acc0 rs = acc0 @ concat (map f rs)"
  by (induction rs arbitrary: acc0) simp_all

text \<open>
  Claim C8, as it holds: each builder emits one block per prior step, in the order of
  the sequence, and then the cue \<^verbatim>\<open>Thought:\<close> with nothing after it. The
  non-conversational block is \<^verbatim>\<open>Thought: <thought>\<close>, \<^verbatim>\<open>Action: <nameForModel>\<close>,
  \<^verbatim>\<open>Action Input: <tool-input>\<close> and \<^verbatim>\<open>Observation: \<close> followed by the observation,
  fenced in triple quotes when it has more than 5 lines. The conversational block is
  \<^verbatim>\<open>Thought:<thought>\<close>, a line that begins with \<^verbatim>\<open>Action:\<close>,
  \<^verbatim>\<open>Action Input: <tool-input>\<close> and \<^verbatim>\<open>Observation: <observation>\<close>; what follows
  \<^verbatim>\<open>Action:\<close> there is the string conversion of the descriptor, whatever it is.
\<close>

theorem agentScratchpad_blocks_in_order:
  "executeReactAgent_agentScratchpad toString rs =
     concat (map (conversationalStep toString) rs) @ ''Thought:'' \<and>
   executeNotConversationalReactAgent_agentScratchpad rs =
     concat (map notConversationalStep rs) @ ''Thought:''"
proof
  have "executeReactAgent_agentScratchpad toString rs =
          (if length rs > 0
           then foldl (\<lambda>pad r. pad @ conversationalStep toString r) [] rs else []) @
          ''Thought:''"
    by (simp add: executeReactAgent_agentScratchpad_def conversationalStep_def)
  also have "\<dots> = concat (map (conversationalStep toString) rs) @ ''Thought:''"
    by (simp add: foldl_append_concat)
  finally show "executeReactAgent_agentScratchpad toString rs =
     concat (map (conversationalStep toString) rs) @ ''Thought:''" .
next
  have less: "\<And>n::nat. 5 \<le> n \<longleftrightarrow> 4 < n" by arith
  have "executeNotConversationalReactAgent_agentScratchpad rs =
          (if length rs > 0
           then foldl (\<lambda>pad r. pad @ notConversationalStep r) [] rs else []) @
          ''Thought:''"
    by (simp add: executeNotConversationalReactAgent_agentScratchpad_def
        notConversationalStep_def fencedObservation_def length_split_str less Let_def
        cong: if_cong)
  also have "\<dots> = concat (map notConversationalStep rs) @ ''Thought:''"
    by (simp add: foldl_append_concat)
  finally show "executeNotConversationalReactAgent_agentScratchpad rs =
     concat (map notConversationalStep rs) @ ''Thought:''" .
qed

theorem agentScratchpad_not_as_specified_counterexample:
  "executeReactAgent_agentScratchpad objectToString [searchStep] \<noteq>
     scratchpadAsSpecified [searchStep] \<and>
   executeNotConversationalReactAgent_agentScratchpad [searchStep] \<noteq>
     scratchpadAsSpecified [searchStep]"
  by (simp add: executeReactAgent_agentScratchpad_def
      executeNotConversationalReactAgent_agentScratchpad_def scratchpadAsSpecified_def
      stepAsSpecified_def objectToString_def searchStep_def web_search_def)

section \<open>Decimal numbers\<close>

lemma decimalDigitsValue_foldl:
  "foldl (\<lambda>n c. 10 * n + ((of_char c :: int) - 48)) n0 ds =
     n0 * 10 ^ length ds + decimalDigitsValue ds"
proof -
  define f where "f = (\<lambda>(n::int) (c::char). 10 * n + ((of_char c :: int) - 48))"
  have "foldl f n0 ds = n0 * 10 ^ length ds + foldl f 0 ds"
  proof (induction ds arbitrary: n0)
    case Nil
    then show ?case by simp
  next
    case (Cons d ds)
    have "foldl f n0 (d # ds) = foldl f (f n0 d) ds" by simp
    also have "\<dots> = f n0 d * 10 ^ length ds + foldl f 0 ds" by (rule Cons.IH)
    also have "\<dots> = n0 * 10 ^ length (d # ds) + (f 0 d * 10 ^ length ds + foldl f 0 ds)"
      by (simp add: f_def algebra_simps)
    also have "f 0 d * 10 ^ length ds + foldl f 0 ds = foldl f (f 0 d) ds"
      by (rule Cons.IH[symmetric])
    also have "\<dots> = foldl f 0 (d # ds)" by simp
    finally show ?case .
  qed
  then show ?thesis by (simp add: f_def decimalDigitsValue_def)
qed

lemma decimalDigitsValue_append:
  "decimalDigitsValue (a @ b) = decimalDigitsValue a * 10 ^ length b + decimalDigitsValue b"
proof -
  have "decimalDigitsValue (a @ b) =
          foldl (\<lambda>n c. 10 * n + ((of_char c :: int) - 48)) (decimalDigitsValue a) b"
    by (simp add: decimalDigitsValue_def)
  then show ?thesis by (simp add: decimalDigitsValue_foldl)
qed

lemma decimalDigitsValue_nonneg:
  "list_all isDecimalDigit ds \<Longrightarrow> 0 \<le> decimalDigitsValue ds"
proof (induction ds rule: rev_induct)
  case Nil
  then show ?case by (simp add: decimalDigitsValue_def)
next
  case (snoc d ds)
  then have "0 \<le> decimalDigitsValue ds" and "48 \<le> (of_char d :: int)"
    by (simp_all add: isDecimalDigit_def)
  then show ?case
    by (simp add: decimalDigitsValue_append) (simp add: decimalDigitsValue_def)
qed

lemma digit_not_space: "isDecimalDigit c \<Longrightarrow> \<not> isWhiteSpace c"
  by (auto simp: isDecimalDigit_def isWhiteSpace_def)

lemma digit_not_sign:
  "isDecimalDigit c \<Longrightarrow> c \<noteq> CHR ''-'' \<and> c \<noteq> CHR ''+'' \<and> c \<noteq> CHR ''I''"
  by (auto simp: isDecimalDigit_def)

lemma geNine_scaled:
  assumes "(9 * 2 ^ 50 - 1) * 10 ^ k \<le> m * 2 ^ 50"
  shows "geNine (Finite False m (- int k))"
proof (cases k)
  case 0
  with assms show ?thesis by simp
next
  case (Suc n)
  then have "\<not> 0 \<le> - int k" and "nat (- (- int k)) = k" by simp_all
  with assms show ?thesis by (simp only: geNine.simps if_False simp_thms)
qed

text \<open>What \<^verbatim>\<open>parseFloat\<close> reads from a decimal number that is at least 9 compares as such.\<close>

lemma decimalAtLeastNine_geNine:
  assumes "decimalAtLeastNine t"
  shows "geNine (parseFloat t)"
proof -
  define ip where "ip = takeWhile isDecimalDigit t"
  define r where "r = dropWhile isDecimalDigit t"
  from assms have ip: "ip \<noteq> []" and nine: "9 \<le> decimalDigitsValue ip"
    and rest: "r = [] \<or> (hd r = CHR ''.'' \<and> list_all isDecimalDigit (tl r))"
    by (simp_all add: decimalAtLeastNine_def Let_def ip_def r_def)
  from ip obtain c cs where t: "t = c # cs" and c: "isDecimalDigit c"
    unfolding ip_def by (cases t) (auto split: if_splits)
  have pf: "parseFloat t = strUnsignedDecimalLiteral False t"
    using c digit_not_space[OF c] digit_not_sign[OF c]
    by (simp add: parseFloat_def trimStart_def t)
  have inf: "dropPrefix ''Infinity'' t = None"
    using digit_not_sign[OF c] by (auto simp add: t)
  show ?thesis
  proof (cases "r = []")
    case True
    then have "strUnsignedDecimalLiteral False t = Finite False (decimalDigitsValue ip) 0"
      using ip inf
      by (simp add: strUnsignedDecimalLiteral_def Let_def exponentPart_def
          ip_def[symmetric] r_def[symmetric])
    with nine pf show ?thesis by simp
  next
    case False
    with rest have dot: "hd r = CHR ''.''" and fp: "list_all isDecimalDigit (tl r)" by simp_all
    have tw: "takeWhile isDecimalDigit (tl r) = tl r" "dropWhile isDecimalDigit (tl r) = []"
      using fp by (simp_all add: list_all_iff)
    have "strUnsignedDecimalLiteral False t =
            (if ip = [] \<and> takeWhile isDecimalDigit (tl r) = [] then NaN
             else Finite False (decimalDigitsValue (ip @ takeWhile isDecimalDigit (tl r)))
                    (exponentPart (dropWhile isDecimalDigit (tl r)) -
                     int (length (takeWhile isDecimalDigit (tl r)))))"
      unfolding strUnsignedDecimalLiteral_def Let_def ip_def[symmetric] r_def[symmetric]
      using inf False dot by (simp only: if_False if_True simp_thms)
    then have lit: "strUnsignedDecimalLiteral False t =
            Finite False (decimalDigitsValue (ip @ tl r)) (- int (length (tl r)))"
      unfolding tw using ip by (simp add: exponentPart_def)
    have ge: "9 * 10 ^ length (tl r) \<le> decimalDigitsValue (ip @ tl r)"
    proof -
      have "9 * 10 ^ length (tl r) \<le> decimalDigitsValue ip * 10 ^ length (tl r)"
        using nine by simp
      also have "\<dots> \<le> decimalDigitsValue (ip @ tl r)"
        using decimalDigitsValue_nonneg[OF fp] by (simp add: decimalDigitsValue_append)
      finally show ?thesis .
    qed
    have "(9 * 2 ^ 50 - 1) * 10 ^ length (tl r) \<le> (9 * 2 ^ 50) * (10::int) ^ length (tl r)"
      by (simp add: mult_right_mono)
    also have "\<dots> = (9 * 10 ^ length (tl r)) * 2 ^ 50" by simp
    also have "\<dots> \<le> decimalDigitsValue (ip @ tl r) * 2 ^ 50"
      using ge by (simp only: mult_right_mono zero_le_numeral zero_le_power)
    finally have "(9 * 2 ^ 50 - 1) * 10 ^ length (tl r) \<le> decimalDigitsValue (ip @ tl r) * 2 ^ 50" .
    then show ?thesis
      unfolding pf lit by (rule geNine_scaled)
  qed
qed

section \<open>The parsers\<close>

lemma finalAnswer_extract:
  "(case match s [Lit ''Final Answer:'', DotStarGroup] of Some m1 \<Rightarrow> m1 | None \<Rightarrow> []) =
     finalAnswerText s"
  by (simp only: match_Lit_DotStar finalAnswerText_def split: if_splits) simp


lemma stripQuotes_trim_Nil: "stripQuotes (trim []) = []"
  by (simp add: stripQuotes_def strip_def trim_def trimStart_def trimEnd_def)

lemma positivity_extract:
  "match s [Lit ''\<newline>Positivity:'', DotStarGroup] =
     (if includes_str s ''\<newline>Positivity:''
      then Some (restOfLine (after s ''\<newline>Positivity:'')) else None)"
  by (rule match_Lit_DotStar)


lemmas eval_defs =
  Let_def stripQuotes_def strip_def trim_def trimStart_def trimEnd_def isWhiteSpace_def
  isLineTerminator_def web_search_def restOfLine_def finalAnswerText_def
  actionInputText_def

lemma no_Action_no_thought:
  assumes "\<not> includes_str s ''Action:''"
  shows "match s [DotStarGroup, Lit ''\<newline>Action:''] = None"
proof (cases "match s [DotStarGroup, Lit ''\<newline>Action:'']")
  case None
  then show ?thesis .
next
  case (Some g)
  have "includes_str s ''\<newline>Action:''"
    by (rule match_DotStar_Lit_includes[OF _ _ Some]) (simp_all add: isLineTerminator_def)
  then have "includes_str s (''\<newline>'' @ ''Action:'' @ [])" by simp
  then have "includes_str s ''Action:''" by (rule includes_str_mono)
  with assms show ?thesis by simp
qed

lemma thought_extract:
  "match s [DotStarGroup, Lit ''\<newline>Action:''] =
     (if includes_str s ''\<newline>Action:'' then Some (thoughtLine s) else None)"
  unfolding thoughtLine_def
  by (rule match_DotStar_Lit_iff) (simp_all add: isLineTerminator_def)

lemma action_extract:
  "match s [Lit ''Action: '', DotStarGroup] =
     (if includes_str s ''Action: '' then Some (restOfLine (after s ''Action: '')) else None)"
  by (rule match_Lit_DotStar)

lemma aiAnswer_extract:
  "(case match s [Lit ''AI:'', DotStarGroup] of Some m1 \<Rightarrow> m1 | None \<Rightarrow> []) =
     aiAnswerText s"
  by (simp only: match_Lit_DotStar aiAnswerText_def split: if_splits) simp

lemma parseResult_without_space:
  assumes "\<not> includes_str s ''Action: ''"
  shows "parseResult tools s = Inr (AnswerResult (aiAnswerText s))"
  using assms
  by (simp add: parseResult_def Let_def action_extract aiAnswer_extract
      del: match.simps matchHere.simps)

subsection \<open>Resolving the tool\<close>




subsection \<open>The early answer\<close>

text \<open>
  Claim C2, as it holds: when the first \<^verbatim>\<open>Positivity:\<close> marker that follows a line
  feed is followed, on its line, by a decimal number that is at least 9 (white space
  around it aside), and the text after the first \<^verbatim>\<open>Final Answer:\<close> marker on its line
  is not empty, the non-conversational parser returns the \<^verbatim>\<open>answer\<close> decision with
  that text trimmed, whatever else the completion holds. So the completion
  \<^verbatim>\<open>Final Answer: Done.\nPositivity: 9.5\<close>, alone or continued on further lines,
  gives the answer \<^verbatim>\<open>Done.\<close>
\<close>

theorem notConversational_early_answer:
  "(includes_str s ''\<newline>Positivity:'' \<and>
    decimalAtLeastNine (trim (restOfLine (after s ''\<newline>Positivity:''))) \<and>
    finalAnswerText s \<noteq> [] \<longrightarrow>
      parseResultForNotConversational tools s =
        Inr (AnswerResult (trim (finalAnswerText s)))) \<and>
   (rest = [] \<or> hd rest = CHR 0x0A \<longrightarrow>
      parseResultForNotConversational tools
        (''Final Answer: Done.\<newline>Positivity: 9.5'' @ rest) =
        Inr (AnswerResult ''Done.''))"
proof -
  have general: "parseResultForNotConversational tools s =
        Inr (AnswerResult (trim (finalAnswerText s)))"
    if "includes_str s ''\<newline>Positivity:''"
      and "decimalAtLeastNine (trim (restOfLine (after s ''\<newline>Positivity:'')))"
      and "finalAnswerText s \<noteq> []"
    for s
  proof -
    have "geNine (parseFloat (trim (restOfLine (after s ''\<newline>Positivity:''))))"
      using that(2) by (rule decimalAtLeastNine_geNine)
    with that(1,3) show ?thesis
      by (simp add: parseResultForNotConversational_def Let_def finalAnswer_extract
          positivity_extract del: match.simps matchHere.simps)
  qed
  have example: "parseResultForNotConversational tools
        (''Final Answer: Done.\<newline>Positivity: 9.5'' @ rest) =
        Inr (AnswerResult ''Done.'')"
    if "rest = [] \<or> hd rest = CHR 0x0A"
  proof -
    let ?s = "''Final Answer: Done.\<newline>Positivity: 9.5'' @ rest"
    from that have line: "restOfLine rest = []"
      by (cases rest) (auto simp: restOfLine_def isLineTerminator_def)
    have 1: "includes_str ?s ''\<newline>Positivity:''" by simp
    have "restOfLine (after ?s ''\<newline>Positivity:'') = '' 9.5'' @ restOfLine rest"
      by (simp add: restOfLine_def isLineTerminator_def)
    then have "trim (restOfLine (after ?s ''\<newline>Positivity:'')) = ''9.5''"
      by (simp add: line trim_def trimStart_def trimEnd_def isWhiteSpace_def)
    then have 2: "decimalAtLeastNine (trim (restOfLine (after ?s ''\<newline>Positivity:'')))"
      by (simp add: decimalAtLeastNine_def isDecimalDigit_def decimalDigitsValue_def)
    have 3: "finalAnswerText ?s = '' Done.''"
      by (simp add: finalAnswerText_def restOfLine_def isLineTerminator_def)
    have "trim '' Done.'' = ''Done.''"
      by (simp add: trim_def trimStart_def trimEnd_def isWhiteSpace_def)
    with general[OF 1 2] 3 show ?thesis by simp
  qed
  from general example show ?thesis by blast
qed

theorem notConversational_early_answer_witness:
  "parseResultForNotConversational [web_search]
     ''Final Answer: Done.\<newline>Positivity: 9.5\<newline>I should search.\<newline>Action: web_search'' =
   Inr (AnswerResult ''Done.'') \<and>
   parseResultForNotConversational [web_search]
     ''I am sure.\<newline>Final Answer: 4\<newline>Positivity: 10'' =
   Inr (AnswerResult ''4'')"
proof -
  let ?rest = "''\<newline>I should search.\<newline>Action: web_search''"
  let ?s = "''I am sure.\<newline>Final Answer: 4\<newline>Positivity: 10''"
  have 1: "includes_str ?s ''\<newline>Positivity:''" by simp
  have 2: "decimalAtLeastNine (trim (restOfLine (after ?s ''\<newline>Positivity:'')))"
    by (simp add: decimalAtLeastNine_def isDecimalDigit_def decimalDigitsValue_def eval_defs)
  have 3: "finalAnswerText ?s = '' 4''" by (simp add: eval_defs)
  have 4: "trim '' 4'' = ''4''" by (simp add: eval_defs)
  have 5: "?rest = [] \<or> hd ?rest = CHR 0x0A" by simp
  show ?thesis
    using 1 2 3 4 5
      notConversational_early_answer [where s = ?s and tools = "[web_search]" and rest = ?rest]
    by simp
qed

theorem notConversational_early_answer_counterexample:
  "finalAnswerText
     ''Positivity: 10\<newline>Final Answer: Done.\<newline>I need a tool.\<newline>Action: web_search\<newline>Action Input: x''
     = '' Done.'' \<and>
   parseResultForNotConversational [web_search]
     ''Positivity: 10\<newline>Final Answer: Done.\<newline>I need a tool.\<newline>Action: web_search\<newline>Action Input: x''
     = Inr (ActionResult
          \<lparr>thought = ''I need a tool.'', plugin = web_search, pluginInput = ''x''\<rparr>)"
  by (simp add: parseResultForNotConversational_def eval_defs)

subsection \<open>An action that no tool has\<close>

text \<open>
  Claim C3, as it holds. Let the thought line, the line that ends at the first line feed
  directly followed by \<^verbatim>\<open>Action:\<close>, exist and be non-empty. The conversational parser
  reads its action after the first \<^verbatim>\<open>Action: \<close>, the marker followed by a space: when
  the rest of that line, trimmed and quote-stripped, is the name of no tool, it raises
  its tool-not-found error; a completion without \<^verbatim>\<open>Action: \<close>, such as one that
  writes \<^verbatim>\<open>Action:unknown_tool\<close>, gives it the \<^verbatim>\<open>answer\<close> decision with the text
  after \<^verbatim>\<open>AI:\<close>. The non-conversational parser reads its action as group 1 of
  \<^verbatim>\<open>/Action:(.*)(\n|$)/\<close>: when that, trimmed and quote-stripped, is not empty, does
  not contain \<^verbatim>\<open>None\<close> and is the name of no tool, it raises its tool-not-found error
  exactly when the \<^verbatim>\<open>Final Answer:\<close> extraction is empty, and otherwise returns the
  \<^verbatim>\<open>answer\<close> decision with that extraction trimmed.
\<close>

theorem unresolved_tool:
  "(includes_str s ''\<newline>Action:'' \<and> thoughtLine s \<noteq> [] \<and>
    includes_str s ''Action: '' \<and>
    find (\<lambda>tool. nameForModel tool = actionText s) tools = None \<longrightarrow>
      parseResult tools s = Inl (Error (''Tool not found: '' @ actionText s))) \<and>
   (\<not> includes_str s ''Action: '' \<longrightarrow>
      parseResult tools s = Inr (AnswerResult (aiAnswerText s))) \<and>
   (includes_str s ''\<newline>Action:'' \<and> thoughtLine s \<noteq> [] \<and>
    match s [Lit ''Action:'', DotStarGroup, NewlineOrEnd] = Some b \<and>
    stripQuotes (trim b) \<noteq> [] \<and> \<not> includes_str (stripQuotes (trim b)) ''None'' \<and>
    find (\<lambda>tool. nameForModel tool = stripQuotes (trim b)) tools = None \<longrightarrow>
      (finalAnswerText s = [] \<longrightarrow>
         parseResultForNotConversational tools s =
           Inl (Error (''Tool '' @ stripQuotes (trim b) @ '' not found''))) \<and>
      (finalAnswerText s \<noteq> [] \<longrightarrow>
         parseResultForNotConversational tools s =
           Inr (AnswerResult (trim (finalAnswerText s)))))"
proof (intro conjI impI)
  assume "includes_str s ''\<newline>Action:'' \<and> thoughtLine s \<noteq> [] \<and>
    includes_str s ''Action: '' \<and>
    find (\<lambda>tool. nameForModel tool = actionText s) tools = None"
  then show "parseResult tools s = Inl (Error (''Tool not found: '' @ actionText s))"
    by (simp add: parseResult_def Let_def thought_extract action_extract actionText_def
        del: match.simps matchHere.simps)
next
  assume "\<not> includes_str s ''Action: ''"
  then show "parseResult tools s = Inr (AnswerResult (aiAnswerText s))"
    by (rule parseResult_without_space)
next
  assume h: "includes_str s ''\<newline>Action:'' \<and> thoughtLine s \<noteq> [] \<and>
    match s [Lit ''Action:'', DotStarGroup, NewlineOrEnd] = Some b \<and>
    stripQuotes (trim b) \<noteq> [] \<and> \<not> includes_str (stripQuotes (trim b)) ''None'' \<and>
    find (\<lambda>tool. nameForModel tool = stripQuotes (trim b)) tools = None"
  then have idx: "indexOf (stripQuotes (trim b)) ''None'' = - 1"
    by (simp add: indexOf_minus1_iff)
  from h have th: "match s [DotStarGroup, Lit ''\<newline>Action:''] = Some (thoughtLine s)"
    by (simp add: thought_extract)
  {
    assume "finalAnswerText s = []"
    with h idx th show "parseResultForNotConversational tools s =
             Inl (Error (''Tool '' @ stripQuotes (trim b) @ '' not found''))"
      by (simp add: parseResultForNotConversational_def Let_def finalAnswer_extract
          del: match.simps matchHere.simps)
  next
    assume "finalAnswerText s \<noteq> []"
    with h idx th show "parseResultForNotConversational tools s =
             Inr (AnswerResult (trim (finalAnswerText s)))"
      by (simp add: parseResultForNotConversational_def Let_def finalAnswer_extract
          del: match.simps matchHere.simps)
  }
qed

theorem unresolved_tool_witness:
  "parseResult [web_search]
     ''Thought: try tool\<newline>Action: unknown_tool\<newline>Action Input: x'' =
     Inl (Error ''Tool not found: unknown_tool'') \<and>
   parseResult [web_search] ''Thought: try tool\<newline>Action:unknown_tool'' =
     Inr (AnswerResult []) \<and>
   parseResultForNotConversational [web_search]
     ''Thought: try tool\<newline>Action: unknown_tool\<newline>Action Input: x'' =
     Inl (Error ''Tool unknown_tool not found'') \<and>
   parseResultForNotConversational [web_search]
     ''Thought: try tool\<newline>Action: unknown_tool\<newline>Final Answer: Paris'' =
     Inr (AnswerResult ''Paris'')"
proof -
  let ?s = "''Thought: try tool\<newline>Action: unknown_tool\<newline>Action Input: x''"
  let ?t = "''Thought: try tool\<newline>Action: unknown_tool\<newline>Final Answer: Paris''"
  let ?u = "''Thought: try tool\<newline>Action:unknown_tool''"
  have m: "includes_str ?s ''\<newline>Action:''" "thoughtLine ?s = ''Thought: try tool''"
    "includes_str ?t ''\<newline>Action:''" "thoughtLine ?t = ''Thought: try tool''"
    "includes_str ?s ''Action: ''" "actionText ?s = ''unknown_tool''"
    "match ?s [Lit ''Action:'', DotStarGroup, NewlineOrEnd] = Some '' unknown_tool''"
    "match ?t [Lit ''Action:'', DotStarGroup, NewlineOrEnd] = Some '' unknown_tool''"
    by (simp_all add: eval_defs thoughtLine_def lastLine_def actionText_def)
  have 5: "stripQuotes (trim '' unknown_tool'') = ''unknown_tool''"
    by (simp add: eval_defs)
  have 6: "find (\<lambda>tool. nameForModel tool = ''unknown_tool'') [web_search] = None"
    "\<not> includes_str ''unknown_tool'' ''None''"
    by (simp_all add: web_search_def)
  have 7: "finalAnswerText ?s = []" "finalAnswerText ?t = '' Paris''" "trim '' Paris'' = ''Paris''"
    by (simp_all add: eval_defs)
  have u: "\<not> includes_str ?u ''Action: ''" "aiAnswerText ?u = []"
    by (simp_all add: aiAnswerText_def)
  show ?thesis
    using unresolved_tool [where s = ?s and b = "'' unknown_tool''" and tools = "[web_search]"]
      unresolved_tool [where s = ?t and b = "'' unknown_tool''" and tools = "[web_search]"]
      unresolved_tool [where s = ?u and tools = "[web_search]"]
      m 5 6 7 u
    by simp
qed

theorem unresolved_tool_counterexample:
  "thoughtLine ''I need nothing.\<newline>Action: None'' = ''I need nothing.'' \<and>
   match ''I need nothing.\<newline>Action: None'' [Lit ''Action:'', DotStarGroup, NewlineOrEnd]
     = Some '' None'' \<and>
   stripQuotes (trim '' None'') = ''None'' \<and>
   find (\<lambda>tool. nameForModel tool = ''None'') [web_search] = None \<and>
   \<not> includes_str ''I need nothing.\<newline>Action: None'' ''Final Answer:'' \<and>
   parseResultForNotConversational [web_search] ''I need nothing.\<newline>Action: None''
     = Inr (AnswerResult []) \<and>
   thoughtLine ''Thought: try tool\<newline>Action:unknown_tool'' = ''Thought: try tool'' \<and>
   find (\<lambda>tool. nameForModel tool = ''unknown_tool'') [web_search] = None \<and>
   parseResult [web_search] ''Thought: try tool\<newline>Action:unknown_tool''
     = Inr (AnswerResult [])"
  by (simp add: parseResultForNotConversational_def parseResult_def eval_defs
      thoughtLine_def lastLine_def)

subsection \<open>Completions without markers\<close>

text \<open>
  Claim C4: a completion without a thought/action pair and without the answer marker
  of the parser (\<^verbatim>\<open>AI:\<close>, respectively \<^verbatim>\<open>Final Answer:\<close>) gives the \<^verbatim>\<open>answer\<close>
  decision with the empty string, in particular a completion that contains neither
  \<^verbatim>\<open>Action:\<close> nor the answer marker; and a parser fails only with its tool-not-found
  error, for a non-empty thought and an extracted action that no tool has as its name.
\<close>

theorem parsers_degrade_to_empty_answer:
  "((match s [DotStarGroup, Lit ''\<newline>Action:''] = None \<or>
     match s [DotStarGroup, Lit ''\<newline>Action:''] = Some [] \<or>
     match s [Lit ''Action: '', DotStarGroup] = None) \<and> \<not> includes_str s ''AI:'' \<longrightarrow>
      parseResult tools s = Inr (AnswerResult [])) \<and>
   ((match s [DotStarGroup, Lit ''\<newline>Action:''] = None \<or>
     match s [DotStarGroup, Lit ''\<newline>Action:''] = Some [] \<or>
     match s [Lit ''Action:'', DotStarGroup, NewlineOrEnd] = None) \<and>
    \<not> includes_str s ''Final Answer:'' \<longrightarrow>
      parseResultForNotConversational tools s = Inr (AnswerResult [])) \<and>
   (\<not> includes_str s ''Action:'' \<and> \<not> includes_str s ''AI:'' \<longrightarrow>
      parseResult tools s = Inr (AnswerResult [])) \<and>
   (\<not> includes_str s ''Action:'' \<and> \<not> includes_str s ''Final Answer:'' \<longrightarrow>
      parseResultForNotConversational tools s = Inr (AnswerResult [])) \<and>
   (parseResult tools s = Inl e \<longrightarrow>
      (\<exists>th a. match s [DotStarGroup, Lit ''\<newline>Action:''] = Some th \<and> th \<noteq> [] \<and>
         match s [Lit ''Action: '', DotStarGroup] = Some a \<and>
         find (\<lambda>tool. nameForModel tool = stripQuotes (trim a)) tools = None \<and>
         e = Error (''Tool not found: '' @ stripQuotes (trim a)))) \<and>
   (parseResultForNotConversational tools s = Inl e' \<longrightarrow>
      (\<exists>th a. match s [DotStarGroup, Lit ''\<newline>Action:''] = Some th \<and> th \<noteq> [] \<and>
         match s [Lit ''Action:'', DotStarGroup, NewlineOrEnd] = Some a \<and>
         find (\<lambda>tool. nameForModel tool = stripQuotes (trim a)) tools = None \<and>
         e' = Error (''Tool '' @ stripQuotes (trim a) @ '' not found'')))"
proof -
  let ?th = "match s [DotStarGroup, Lit ''\<newline>Action:'']"
  have trimNil: "trim [] = []" by (simp add: trim_def trimStart_def trimEnd_def)
  have conv: "parseResult tools s = Inr (AnswerResult [])"
    if "?th = None \<or> ?th = Some [] \<or> match s [Lit ''Action: '', DotStarGroup] = None"
      and "\<not> includes_str s ''AI:''"
  proof -
    from that(2) have "match s [Lit ''AI:'', DotStarGroup] = None"
      by (simp add: match_Lit_DotStar)
    with that(1) show ?thesis
      by (auto simp add: parseResult_def Let_def simp del: match.simps matchHere.simps)
  qed
  have nonconv: "parseResultForNotConversational tools s = Inr (AnswerResult [])"
    if "?th = None \<or> ?th = Some [] \<or>
        match s [Lit ''Action:'', DotStarGroup, NewlineOrEnd] = None"
      and "\<not> includes_str s ''Final Answer:''"
  proof -
    from that(2) have "match s [Lit ''Final Answer:'', DotStarGroup] = None"
      by (simp add: match_Lit_DotStar)
    with that(1) show ?thesis
      by (auto simp add: parseResultForNotConversational_def Let_def trimNil
          simp del: match.simps matchHere.simps)
  qed
  have noAct: "match s [Lit ''Action:'', DotStarGroup, NewlineOrEnd] = None"
    if "\<not> includes_str s ''Action:''"
    using that match_Lit_includes by (metis not_Some_eq)
  have errConv: "\<exists>th a. ?th = Some th \<and> th \<noteq> [] \<and>
         match s [Lit ''Action: '', DotStarGroup] = Some a \<and>
         find (\<lambda>tool. nameForModel tool = stripQuotes (trim a)) tools = None \<and>
         e = Error (''Tool not found: '' @ stripQuotes (trim a))"
    if "parseResult tools s = Inl e"
    using that
    by (auto simp add: parseResult_def Let_def simp del: match.simps matchHere.simps
        split: if_splits option.splits)
  have errNonconv: "\<exists>th a. ?th = Some th \<and> th \<noteq> [] \<and>
         match s [Lit ''Action:'', DotStarGroup, NewlineOrEnd] = Some a \<and>
         find (\<lambda>tool. nameForModel tool = stripQuotes (trim a)) tools = None \<and>
         e' = Error (''Tool '' @ stripQuotes (trim a) @ '' not found'')"
    if "parseResultForNotConversational tools s = Inl e'"
    using that
    by (auto simp add: parseResultForNotConversational_def Let_def
        simp del: match.simps matchHere.simps split: if_splits option.splits)
  show ?thesis
    using conv nonconv no_Action_no_thought noAct errConv errNonconv by blast
qed

theorem parsers_degrade_to_empty_answer_witness:
  "parseResult [web_search] ''I do not know.'' = Inr (AnswerResult []) \<and>
   parseResultForNotConversational [web_search] ''I do not know.'' = Inr (AnswerResult []) \<and>
   (\<exists>th a. match ''Thought: try tool\<newline>Action: unknown_tool\<newline>Action Input: x''
              [DotStarGroup, Lit ''\<newline>Action:''] = Some th \<and> th \<noteq> [] \<and>
      match ''Thought: try tool\<newline>Action: unknown_tool\<newline>Action Input: x''
        [Lit ''Action: '', DotStarGroup] = Some a \<and>
      find (\<lambda>tool. nameForModel tool = stripQuotes (trim a)) [web_search] = None \<and>
      Error ''Tool not found: unknown_tool'' =
        Error (''Tool not found: '' @ stripQuotes (trim a))) \<and>
   (\<exists>th a. match ''Thought: try tool\<newline>Action: unknown_tool\<newline>Action Input: x''
              [DotStarGroup, Lit ''\<newline>Action:''] = Some th \<and> th \<noteq> [] \<and>
      match ''Thought: try tool\<newline>Action: unknown_tool\<newline>Action Input: x''
        [Lit ''Action:'', DotStarGroup, NewlineOrEnd] = Some a \<and>
      find (\<lambda>tool. nameForModel tool = stripQuotes (trim a)) [web_search] = None \<and>
      Error ''Tool unknown_tool not found'' =
        Error (''Tool '' @ stripQuotes (trim a) @ '' not found''))"
proof -
  let ?s1 = "''I do not know.''"
  let ?s2 = "''Thought: try tool\<newline>Action: unknown_tool\<newline>Action Input: x''"
  have h: "\<not> includes_str ?s1 ''Action:''" "\<not> includes_str ?s1 ''AI:''"
    "\<not> includes_str ?s1 ''Final Answer:''"
    by simp_all
  have e1: "parseResult [web_search] ?s2 = Inl (Error ''Tool not found: unknown_tool'')"
    by (simp add: parseResult_def eval_defs)
  have e2: "parseResultForNotConversational [web_search] ?s2 =
              Inl (Error ''Tool unknown_tool not found'')"
    by (simp add: parseResultForNotConversational_def eval_defs)
  show ?thesis
    using h e1 e2
      parsers_degrade_to_empty_answer [where s = ?s1 and tools = "[web_search]"]
      parsers_degrade_to_empty_answer [where s = ?s2 and tools = "[web_search]"
        and e = "Error ''Tool not found: unknown_tool''"
        and e' = "Error ''Tool unknown_tool not found''"]
    by blast
qed

subsection \<open>The thought\<close>

text \<open>
  Claim C5, as it holds: whenever the conversational parser returns an \<^verbatim>\<open>action\<close>
  decision, the completion contains a line feed followed by \<^verbatim>\<open>Action:\<close>, and the
  thought is the one line that ends at the first such line feed, trimmed: the text
  between the preceding line terminator (or the start of the completion) and that line
  feed. Earlier lines are not part of it.
\<close>

theorem thought_is_line_before_Action:
  assumes "parseResult tools s = Inr (ActionResult d)"
  shows "includes_str s ''\<newline>Action:'' \<and>
         thought d = trim (lastLine (before s ''\<newline>Action:''))"
proof -
  from assms obtain th where th: "match s [DotStarGroup, Lit ''\<newline>Action:''] = Some th"
    and d: "thought d = trim th"
    by (auto simp add: parseResult_def Let_def simp del: match.simps matchHere.simps
        split: if_splits option.splits)
  have lf: "''\<newline>Action:'' \<noteq> []" "isLineTerminator (hd ''\<newline>Action:'')"
    by (simp_all add: isLineTerminator_def)
  have "includes_str s ''\<newline>Action:''"
    using lf th by (rule match_DotStar_Lit_includes)
  moreover have "th = lastLine (before s ''\<newline>Action:'')"
    using lf th by (rule match_DotStar_Lit)
  ultimately show ?thesis using d by simp
qed

theorem thought_is_line_before_Action_witness:
  "includes_str ''First line.\<newline>Second line.\<newline>Action: web_search'' ''\<newline>Action:'' \<and>
   ''Second line.'' =
     trim (lastLine (before ''First line.\<newline>Second line.\<newline>Action: web_search''
       ''\<newline>Action:''))"
proof -
  let ?s = "''First line.\<newline>Second line.\<newline>Action: web_search''"
  have "parseResult [web_search] ?s =
          Inr (ActionResult \<lparr>thought = ''Second line.'', plugin = web_search, pluginInput = []\<rparr>)"
    by (simp add: parseResult_def eval_defs)
  from thought_is_line_before_Action [OF this] show ?thesis by simp
qed

theorem thought_is_line_before_Action_counterexample:
  "includes_str ''First line.\<newline>Second line.\<newline>Action: web_search'' ''Action:'' \<and>
   parseResult [web_search] ''First line.\<newline>Second line.\<newline>Action: web_search'' =
     Inr (ActionResult \<lparr>thought = ''Second line.'', plugin = web_search, pluginInput = []\<rparr>) \<and>
   thoughtAsSpecified ''First line.\<newline>Second line.\<newline>Action: web_search'' =
     ''First line.\<newline>Second line.''"
  by (simp add: parseResult_def thoughtAsSpecified_def eval_defs)

subsection \<open>The placeholder action\<close>

text \<open>
  Claim C9: when the action string that the non-conversational parser extracts contains
  \<^verbatim>\<open>None\<close>, the parser returns the \<^verbatim>\<open>answer\<close> decision built from the
  \<^verbatim>\<open>Final Answer:\<close> extraction, which may be empty: neither an \<^verbatim>\<open>action\<close> decision
  nor an error.
\<close>

theorem notConversational_None_is_no_action:
  assumes "match s [Lit ''Action:'', DotStarGroup, NewlineOrEnd] = Some a"
    and "stripQuotes (trim a) = u @ ''None'' @ v"
  shows "parseResultForNotConversational tools s =
           Inr (AnswerResult (trim (finalAnswerText s)))"
proof -
  have "includes_str (stripQuotes (trim a)) ''None''"
    unfolding includes_str_iff using assms(2) by blast
  then have "indexOf (stripQuotes (trim a)) ''None'' \<noteq> - 1"
    by (simp add: indexOf_minus1_iff)
  with assms(1) show ?thesis
    by (simp add: parseResultForNotConversational_def Let_def finalAnswer_extract
        del: match.simps matchHere.simps)
qed

theorem notConversational_None_is_no_action_witness:
  "parseResultForNotConversational [web_search]
     ''No tool is needed.\<newline>Action: None\<newline>Final Answer: 42'' =
   Inr (AnswerResult ''42'')"
proof -
  let ?s = "''No tool is needed.\<newline>Action: None\<newline>Final Answer: 42''"
  have 1: "match ?s [Lit ''Action:'', DotStarGroup, NewlineOrEnd] = Some '' None''"
    by (simp add: isLineTerminator_def)
  have 2: "stripQuotes (trim '' None'') = [] @ ''None'' @ []"
    by (simp add: stripQuotes_def strip_def trim_def trimStart_def trimEnd_def
        isWhiteSpace_def isLineTerminator_def)
  have "trim (finalAnswerText ?s) = ''42''"
    by (simp add: finalAnswerText_def restOfLine_def trim_def trimStart_def trimEnd_def
        isWhiteSpace_def isLineTerminator_def)
  then show ?thesis
    using notConversational_None_is_no_action [OF 1 2] by simp
qed

subsection \<open>A missing tool input\<close>

text \<open>
  Claim C10: a non-empty thought, an action that resolves to a tool and no
  \<^verbatim>\<open>Action Input:\<close> marker anywhere give an \<^verbatim>\<open>action\<close> decision whose tool input
  is the empty string.
\<close>

theorem parseResult_without_action_input:
  assumes "match s [DotStarGroup, Lit ''\<newline>Action:''] = Some th" and "th \<noteq> []"
    and "match s [Lit ''Action: '', DotStarGroup] = Some a"
    and "find (\<lambda>tool. nameForModel tool = stripQuotes (trim a)) tools = Some tool"
    and "\<not> includes_str s ''Action Input:''"
  shows "parseResult tools s =
           Inr (ActionResult \<lparr>thought = trim th, plugin = tool, pluginInput = []\<rparr>)"
proof -
  have "\<not> includes_str s ([] @ ''Action Input:'' @ '' '')"
    using assms(5) includes_str_mono by blast
  then have "match s [Lit ''Action Input: '', DotStarGroup] = None"
    by (simp add: match_Lit_DotStar)
  with assms(1-4) show ?thesis
    by (simp add: parseResult_def stripQuotes_trim_Nil del: match.simps matchHere.simps)
qed

theorem parseResult_without_action_input_witness:
  "parseResult [web_search] ''I should search.\<newline>Action: web_search'' =
     Inr (ActionResult \<lparr>thought = ''I should search.'', plugin = web_search, pluginInput = []\<rparr>)"
proof -
  let ?s = "''I should search.\<newline>Action: web_search''"
  have 1: "match ?s [DotStarGroup, Lit ''\<newline>Action:''] = Some ''I should search.''"
    by (simp add: isLineTerminator_def)
  have 2: "''I should search.'' \<noteq> []" by simp
  have 3: "match ?s [Lit ''Action: '', DotStarGroup] = Some ''web_search''"
    by (simp add: isLineTerminator_def)
  have 4: "find (\<lambda>tool. nameForModel tool = stripQuotes (trim ''web_search'')) [web_search]
             = Some web_search"
    by (simp add: web_search_def stripQuotes_def strip_def trim_def trimStart_def trimEnd_def
        isWhiteSpace_def isLineTerminator_def)
  have 5: "\<not> includes_str ?s ''Action Input:''" by simp
  have "trim ''I should search.'' = ''I should search.''"
    by (simp add: trim_def trimStart_def trimEnd_def isWhiteSpace_def)
  then show ?thesis
    using parseResult_without_action_input [OF 1 2 3 4 5] by simp
qed

end
